theory Spec2Isabelle
  imports Main
begin

section \<open>Recipe assistant: the recipe store and its callers (src/index.tsx)\<close>

text \<open>
  The browser application keeps its saved recipes in \<open>localStorage\<close> under the key
  \<open>savedRecipes\<close>, as the JSON text of an array of recipes. Every storage function reads
  the whole array, changes it and writes the whole array back.

  Modelling decisions, each one stated where it applies:
  \<^item> a TypeScript \<open>Recipe\<close> is a record; the optional \<open>imageUrl\<close> is an \<open>option\<close>;
  \<^item> the value under the key \<open>savedRecipes\<close> is a \<open>recipe list option\<close>: \<open>None\<close> when the
    key is missing, \<open>Some rs\<close> after \<open>setItem\<close>. \<open>JSON.stringify\<close> followed by \<open>JSON.parse\<close>
    is taken to return the array it was given (recipes hold strings and arrays of strings
    only, and an undefined \<open>imageUrl\<close> is left out and read back as undefined);
    \<open>setItem\<close> is taken to succeed (no storage quota);
  \<^item> a character is a JavaScript code unit below 256, that is a character of Latin-1
    with its code point (\<open>CHR 0xD6\<close> is the capital O with diaeresis, \<open>CHR 0xA0\<close> the
    no-break space); strings with other characters are outside the model. On these
    strings \<open>toLowerCase\<close> and \<open>trim\<close> are defined as JavaScript defines them;
  \<^item> a function that reports a problem with \<open>alert\<close> and returns, or that silently does
    nothing, returns the matching \<open>error\<close> value together with the storage it leaves.
\<close>

subsection \<open>Data model\<close>

record recipe =
  recipeName :: string
  description :: string
  ingredients :: "string list"
  instructions :: "string list"
  imageUrl :: "string option"

type_synonym storage = "recipe list option"

datatype error =
    DuplicateName       \<comment> \<open>alert: a recipe with this name already exists\<close>
  | NotFound            \<comment> \<open>\<open>findIndex\<close> gave -1: nothing is written, nothing is reported\<close>
  | ImageReadFailure    \<comment> \<open>\<open>readFileAsDataURL\<close> rejected\<close>
  | MissingFields       \<comment> \<open>alert: a required field of the add form is empty\<close>
  | EmptyPrompt         \<comment> \<open>alert: the prompt is empty\<close>
  | ServiceFailure      \<comment> \<open>\<open>generateContent\<close> rejected\<close>
  | InvalidResponse     \<comment> \<open>\<open>JSON.parse\<close> or the rendering of its result threw\<close>

subsection \<open>String and array primitives of the platform\<close>

text \<open>
  \<open>String.prototype.toLowerCase\<close> on Latin-1: the capital letters are U+0041..U+005A and
  U+00C0..U+00DE without the multiplication sign U+00D7, and each has its small letter 32
  places higher. No other character below 256 changes.
\<close>

definition lower_char :: "char \<Rightarrow> char" where
  "lower_char c =
     (let n = (of_char c :: nat) in
      if (65 \<le> n \<and> n \<le> 90) \<or> (192 \<le> n \<and> n \<le> 222 \<and> n \<noteq> 215)
      then char_of (n + 32) else c)"

definition toLowerCase :: "string \<Rightarrow> string" where
  "toLowerCase s = map lower_char s"

text \<open>
  \<open>String.prototype.trim\<close> removes white space and line terminators from both ends. Below
  256 these are tab, line feed, vertical tab, form feed, carriage return, space and the
  no-break space U+00A0.
\<close>

definition is_space :: "char \<Rightarrow> bool" where
  "is_space c = ((of_char c :: nat) \<in> {9, 10, 11, 12, 13, 32, 160})"

definition trim :: "string \<Rightarrow> string" where
  "trim s = rev (dropWhile is_space (rev (dropWhile is_space s)))"

text \<open>\<open>s.split('\n')\<close>: the pieces between line feeds; the empty string gives one empty piece.\<close>

fun split_lines :: "string \<Rightarrow> string list" where
  "split_lines [] = [[]]"
| "split_lines (c # cs) =
     (if c = CHR 0x0A then [] # split_lines cs
      else (case split_lines cs of
              [] \<Rightarrow> [[c]]
            | l # ls \<Rightarrow> (c # l) # ls))"

text \<open>\<open>xs.findIndex(p)\<close>: the index of the first element satisfying \<open>p\<close>, or -1.\<close>

fun findIndex_from :: "('a \<Rightarrow> bool) \<Rightarrow> 'a list \<Rightarrow> nat \<Rightarrow> int" where
  "findIndex_from p [] k = - 1"
| "findIndex_from p (x # xs) k = (if p x then int k else findIndex_from p xs (Suc k))"

definition findIndex :: "('a \<Rightarrow> bool) \<Rightarrow> 'a list \<Rightarrow> int" where
  "findIndex p xs = findIndex_from p xs 0"

text \<open>\<open>xs.some(p)\<close> is \<^const>\<open>list_ex\<close> and \<open>xs.filter(p)\<close> is \<^const>\<open>filter\<close>.\<close>

subsection \<open>LocalStorage functions\<close>

definition getSavedRecipes :: "storage \<Rightarrow> recipe list" where
  "getSavedRecipes st = (case st of None \<Rightarrow> [] | Some rs \<Rightarrow> rs)"

definition same_name :: "string \<Rightarrow> recipe \<Rightarrow> bool" where
  "same_name n r = (toLowerCase (recipeName r) = toLowerCase n)"

definition isRecipeSaved :: "string \<Rightarrow> storage \<Rightarrow> bool" where
  "isRecipeSaved n st = list_ex (same_name n) (getSavedRecipes st)"

definition saveRecipeToStorage :: "recipe \<Rightarrow> storage \<Rightarrow> (error + unit) \<times> storage" where
  "saveRecipeToStorage r st =
     (let recipes = getSavedRecipes st in
      if \<not> list_ex (same_name (recipeName r)) recipes
      then (Inr (), Some (recipes @ [r]))
      else (Inl DuplicateName, st))"

definition updateRecipeInStorage :: "string \<Rightarrow> recipe \<Rightarrow> storage \<Rightarrow> (error + unit) \<times> storage" where
  "updateRecipeInStorage originalRecipeName updatedRecipe st =
     (let recipes = getSavedRecipes st;
          recipeIndex = findIndex (same_name originalRecipeName) recipes in
      if recipeIndex > - 1
      then (Inr (), Some (recipes[nat recipeIndex := updatedRecipe]))
      else (Inl NotFound, st))"

definition removeRecipeFromStorage :: "string \<Rightarrow> storage \<Rightarrow> storage" where
  "removeRecipeFromStorage n st =
     Some (filter (\<lambda>r. recipeName r \<noteq> n) (getSavedRecipes st))"

text \<open>The invariant of the stored collection: the lower-cased names are pairwise different.\<close>

definition unique_names :: "recipe list \<Rightarrow> bool" where
  "unique_names rs = distinct (map (\<lambda>r. toLowerCase (recipeName r)) rs)"

subsection \<open>Form handling\<close>

text \<open>
  The ingredient and instruction text areas are split at line feeds, each line is trimmed
  and the empty lines are dropped.
\<close>

definition form_lines :: "string \<Rightarrow> string list" where
  "form_lines s = filter (\<lambda>l. l \<noteq> []) (map trim (split_lines s))"

record form =
  form_name :: string
  form_description :: string
  form_ingredients :: string
  form_instructions :: string
  form_image :: "(error + string) option"
    \<comment> \<open>no file chosen, or what \<open>readFileAsDataURL\<close> gave for the chosen file\<close>

definition form_recipe :: "form \<Rightarrow> string option \<Rightarrow> recipe" where
  "form_recipe f img =
     \<lparr> recipeName = trim (form_name f),
       description = trim (form_description f),
       ingredients = form_lines (form_ingredients f),
       instructions = form_lines (form_instructions f),
       imageUrl = img \<rparr>"

text \<open>
  Both form handlers read the chosen image file first, if there is one, and stop when
  reading fails; \<open>dflt\<close> is the image used when no file was chosen.
\<close>

definition chosen_image :: "string option \<Rightarrow> form \<Rightarrow> error + string option" where
  "chosen_image dflt f =
     (case form_image f of
        None \<Rightarrow> Inr dflt
      | Some (Inl e) \<Rightarrow> Inl ImageReadFailure
      | Some (Inr url) \<Rightarrow> Inr (Some url))"

text \<open>
  The click handler of the save-edit button inside \<open>renderRecipe\<close>. \<open>original\<close> is the copy
  of the recipe the card was rendered for. The handler ignores whether
  \<open>updateRecipeInStorage\<close> found an entry: it renders the edited recipe either way, and that
  recipe is the result.
\<close>

definition saveEdit :: "recipe \<Rightarrow> form \<Rightarrow> storage \<Rightarrow> (error + recipe) \<times> storage" where
  "saveEdit original f st =
     (case chosen_image (imageUrl original) f of
        Inl e \<Rightarrow> (Inl e, st)
      | Inr img \<Rightarrow>
          (let updatedRecipe = form_recipe f img in
           if toLowerCase (recipeName updatedRecipe) \<noteq> toLowerCase (recipeName original)
              \<and> isRecipeSaved (recipeName updatedRecipe) st
           then (Inl DuplicateName, st)
           else (Inr updatedRecipe,
                 snd (updateRecipeInStorage (recipeName original) updatedRecipe st))))"

definition handleAddRecipe :: "form \<Rightarrow> storage \<Rightarrow> (error + unit) \<times> storage" where
  "handleAddRecipe f st =
     (case chosen_image None f of
        Inl e \<Rightarrow> (Inl e, st)
      | Inr img \<Rightarrow>
          (let newRecipe = form_recipe f img in
           if recipeName newRecipe = [] \<or> length (ingredients newRecipe) = 0
              \<or> length (instructions newRecipe) = 0
           then (Inl MissingFields, st)
           else saveRecipeToStorage newRecipe st))"

subsection \<open>User actions on the store\<close>

text \<open>
  The four ways the application changes the stored collection: the save button of a
  rendered recipe, the add form, the save-edit button and the delete button of the saved
  list.
\<close>

datatype action =
    SaveRecipe recipe
  | AddRecipe form
  | SaveEdit recipe form
  | DeleteRecipe string

fun perform :: "action \<Rightarrow> storage \<Rightarrow> storage" where
  "perform (SaveRecipe r) st = snd (saveRecipeToStorage r st)"
| "perform (AddRecipe f) st = snd (handleAddRecipe f st)"
| "perform (SaveEdit original f) st = snd (saveEdit original f st)"
| "perform (DeleteRecipe n) st = removeRecipeFromStorage n st"

definition run :: "action list \<Rightarrow> storage \<Rightarrow> storage" where
  "run acts st = foldl (\<lambda>s a. perform a s) st acts"

subsection \<open>Recipe generation\<close>

text \<open>
  \<open>generateRecipe\<close> sends the prompt with \<open>recipeSchema\<close> to the service, parses the text of
  the answer with \<open>JSON.parse\<close> and hands the result to \<open>renderRecipe\<close>, all inside one
  \<open>try\<close>; it checks nothing itself. The answers considered are: a rejected request, an
  answer without text, a text \<open>JSON.parse\<close> rejects, a text that parses to a falsy value
  (\<open>null\<close>, \<open>0\<close>, \<open>false\<close> or the empty string), a text that parses to another value that is
  not an object (a number, \<open>true\<close>, a string, an array), and a text that parses to an
  object in which each field of a recipe is either missing or of the type the schema gives
  it. Objects with a field of another type are outside the model.
\<close>

record response_object =
  resp_recipeName :: "string option"
  resp_description :: "string option"
  resp_ingredients :: "string list option"
  resp_instructions :: "string list option"
  resp_imageUrl :: "string option"

datatype reply =
    Rejected                    \<comment> \<open>the promise of \<open>generateContent\<close> rejects\<close>
  | NoText                      \<comment> \<open>\<open>result.text\<close> is undefined\<close>
  | Malformed                   \<comment> \<open>\<open>JSON.parse\<close> throws\<close>
  | Falsy                       \<comment> \<open>the text parses to \<open>null\<close>, \<open>0\<close>, \<open>false\<close> or the empty string\<close>
  | NonObject                   \<comment> \<open>the text parses to another number, \<open>true\<close>, a string or an array\<close>
  | Document response_object

datatype exception = ServiceError | SyntaxError | TypeError

text \<open>A value that is not an object has none of the fields of a recipe.\<close>

definition no_fields :: response_object where
  "no_fields = \<lparr> resp_recipeName = None, resp_description = None, resp_ingredients = None,
                 resp_instructions = None, resp_imageUrl = None \<rparr>"

text \<open>
  \<open>renderRecipe\<close>, as far as its result and its exceptions go; the argument \<open>None\<close> stands
  for a falsy one. On a falsy argument it clears the output and returns: nothing is
  rendered and nothing is thrown. Otherwise, in the order of the source:
  \<open>isRecipeSaved(recipe.recipeName)\<close> calls \<open>toLowerCase\<close> on the name as soon as one recipe
  is stored; the template calls \<open>map\<close> on \<open>ingredients\<close> and \<open>instructions\<close> and \<open>replace\<close> on
  \<open>recipeName\<close>. \<open>description\<close> and \<open>imageUrl\<close> are only interpolated, which does not throw
  on undefined. The result is what is on display afterwards.
\<close>

definition renderRecipe ::
  "response_object option \<Rightarrow> storage \<Rightarrow> exception + response_object option" where
  "renderRecipe recipe st =
     (case recipe of
        None \<Rightarrow> Inr None
      | Some d \<Rightarrow>
          if getSavedRecipes st \<noteq> [] \<and> resp_recipeName d = None then Inl TypeError
          else if resp_ingredients d = None then Inl TypeError
          else if resp_instructions d = None then Inl TypeError
          else if resp_recipeName d = None then Inl TypeError
          else Inr (Some d))"

text \<open>
  The body of the \<open>try\<close> block: awaiting the answer, \<open>result.text.trim()\<close>, \<open>JSON.parse\<close>
  and \<open>renderRecipe\<close>, each of which can throw.
\<close>

definition request :: "reply \<Rightarrow> storage \<Rightarrow> exception + response_object option" where
  "request rp st =
     (case rp of
        Rejected \<Rightarrow> Inl ServiceError
      | NoText \<Rightarrow> Inl TypeError
      | Malformed \<Rightarrow> Inl SyntaxError
      | Falsy \<Rightarrow> renderRecipe None st
      | NonObject \<Rightarrow> renderRecipe (Some no_fields) st
      | Document d \<Rightarrow> renderRecipe (Some d) st)"

text \<open>
  The \<open>catch\<close> shows one message for every exception; the result says which kind it was:
  \<open>ServiceFailure\<close> for the rejected request, \<open>InvalidResponse\<close> for everything thrown while
  the answer is parsed and rendered. \<open>Inr None\<close> is the run that ends with neither a recipe
  nor an error on display.
\<close>

definition generateRecipe ::
  "string \<Rightarrow> reply \<Rightarrow> storage \<Rightarrow> error + response_object option" where
  "generateRecipe prompt rp st =
     (if trim prompt = [] then Inl EmptyPrompt
      else (case request rp st of
              Inl ServiceError \<Rightarrow> Inl ServiceFailure
            | Inl _ \<Rightarrow> Inl InvalidResponse
            | Inr shown \<Rightarrow> Inr shown))"

subsection \<open>Example data\<close>

definition soup :: recipe where
  "soup = \<lparr> recipeName = ''Soup'', description = ''A warm soup'',
            ingredients = [''Water'', ''Salt''], instructions = [''Boil''],
            imageUrl = None \<rparr>"

definition stew :: recipe where
  "stew = \<lparr> recipeName = ''Stew'', description = ''A thick stew'',
            ingredients = [''Beef'', ''Onion''], instructions = [''Simmer''],
            imageUrl = None \<rparr>"

definition broth :: recipe where
  "broth = \<lparr> recipeName = ''Broth'', description = ''A clear broth'',
             ingredients = [''Bones'', ''Water''], instructions = [''Simmer'', ''Strain''],
             imageUrl = Some ''data:image/png;base64,AAAA'' \<rparr>"

definition edit_form :: "string \<Rightarrow> form" where
  "edit_form n = \<lparr> form_name = n, form_description = '' Better '',
                   form_ingredients = ''Water\<newline>  Leek \<newline>\<newline>'',
                   form_instructions = ''Boil\<newline>Serve'', form_image = None \<rparr>"

text \<open>Names with letters outside ASCII, and a name that is one no-break space.\<close>

definition Oel :: recipe where
  "Oel = \<lparr> recipeName = [CHR 0xD6, CHR ''l''], description = ''Oil, capital'',
           ingredients = [''Olives''], instructions = [''Press''], imageUrl = None \<rparr>"

definition oel :: recipe where
  "oel = \<lparr> recipeName = [CHR 0xF6, CHR ''l''], description = ''Oil, small'',
           ingredients = [''Seeds''], instructions = [''Grind''], imageUrl = None \<rparr>"

definition nbsp_form :: form where
  "nbsp_form = \<lparr> form_name = [CHR 0xA0], form_description = ''d'',
                 form_ingredients = ''Water'', form_instructions = ''Boil'',
                 form_image = None \<rparr>"

definition blank_form :: form where
  "blank_form = \<lparr> form_name = ''   '', form_description = ''d'',
                  form_ingredients = '' \<newline>  \<newline>'', form_instructions = ''Boil'',
                  form_image = None \<rparr>"

definition pasta :: response_object where
  "pasta = \<lparr> resp_recipeName = Some ''Tomato Pasta'', resp_description = Some ''Quick'',
             resp_ingredients = Some [''Tomatoes'', ''Pasta''],
             resp_instructions = Some [''Boil pasta'', ''Add sauce''],
             resp_imageUrl = None \<rparr>"

definition photo_form :: form where
  "photo_form = \<lparr> form_name = '' Broth'', form_description = '' Better '',
                  form_ingredients = ''Water\<newline>  Leek \<newline>\<newline>'',
                  form_instructions = ''Boil\<newline>Serve'',
                  form_image = Some (Inr ''data:image/png;base64,BBBB'') \<rparr>"

definition better_broth :: recipe where
  "better_broth = \<lparr> recipeName = ''Broth'', description = ''Better'',
                    ingredients = [''Water'', ''Leek''], instructions = [''Boil'', ''Serve''],
                    imageUrl = Some ''data:image/png;base64,BBBB'' \<rparr>"

section \<open>Auxiliary facts\<close>

subsection \<open>The string primitives on examples\<close>

lemma toLowerCase_latin1:
  "toLowerCase [CHR 0x40, CHR 0x41, CHR 0x5A, CHR 0x5B, CHR 0x61, CHR 0xBF, CHR 0xC0, CHR 0xD6,
                CHR 0xD7, CHR 0xD8, CHR 0xDE, CHR 0xDF, CHR 0xF7, CHR 0xFF]
     = [CHR 0x40, CHR 0x61, CHR 0x7A, CHR 0x5B, CHR 0x61, CHR 0xBF, CHR 0xE0, CHR 0xF6,
        CHR 0xD7, CHR 0xF8, CHR 0xFE, CHR 0xDF, CHR 0xF7, CHR 0xFF]"
  by code_simp

lemma trim_white_space:
  "trim ([CHR 0x09, CHR 0x0A, CHR 0x0B, CHR 0x0C, CHR 0x0D, CHR 0x20, CHR 0xA0] @ ''a b''
           @ [CHR 0xA0, CHR 0x0A, CHR 0x20]) = ''a b''"
  "trim [CHR 0x08] = [CHR 0x08]"
  "trim [CHR 0x1F] = [CHR 0x1F]"
  "trim [CHR 0x85] = [CHR 0x85]"
  "trim [] = []"
  by code_simp+

lemma split_lines_examples:
  "split_lines [] = [[]]"
  "split_lines ''a\<newline>\<newline>b c\<newline>'' = [''a'', [], ''b c'', []]"
  "form_lines '' a \<newline>\<newline>b c\<newline>  '' = [''a'', ''b c'']"
  by code_simp+

subsection \<open>Array primitives\<close>

lemma findIndex_from_found: "(findIndex_from p xs k > - 1) = list_ex p xs"
  by (induction xs arbitrary: k) simp_all

lemma findIndex_from_first:
  "list_ex p xs \<Longrightarrow>
   \<exists>i < length xs. findIndex_from p xs k = int (k + i) \<and> p (xs ! i) \<and> (\<forall>j < i. \<not> p (xs ! j))"
proof (induction xs arbitrary: k)
  case Nil
  then show ?case by simp
next
  case (Cons x xs)
  show ?case
  proof (cases "p x")
    case True
    then show ?thesis by (intro exI [of _ 0]) simp
  next
    case False
    with Cons.prems have "list_ex p xs" by simp
    from Cons.IH [OF this, of "Suc k"] obtain i where i: "i < length xs"
      "findIndex_from p xs (Suc k) = int (Suc k + i)" "p (xs ! i)" "\<forall>j < i. \<not> p (xs ! j)"
      by blast
    show ?thesis
    proof (intro exI [of _ "Suc i"] conjI allI impI)
      fix j assume "j < Suc i"
      then show "\<not> p ((x # xs) ! j)" using False i(4) by (cases j) auto
    qed (use i False in auto)
  qed
qed

lemma findIndex_found: "(findIndex p xs > - 1) = list_ex p xs"
  by (simp add: findIndex_def findIndex_from_found)

lemma findIndex_first:
  "list_ex p xs \<Longrightarrow>
   \<exists>i < length xs. findIndex p xs = int i \<and> p (xs ! i) \<and> (\<forall>j < i. \<not> p (xs ! j))"
  using findIndex_from_first [of p xs 0] by (simp add: findIndex_def)

subsection \<open>Names\<close>

lemma list_ex_same_name:
  "list_ex (same_name n) rs = (\<exists>r \<in> set rs. toLowerCase (recipeName r) = toLowerCase n)"
  by (simp add: list_ex_iff same_name_def)

lemma isRecipeSaved_iff:
  "isRecipeSaved n st =
     (\<exists>r \<in> set (getSavedRecipes st). toLowerCase (recipeName r) = toLowerCase n)"
  by (simp add: isRecipeSaved_def list_ex_same_name)

lemma unique_names_snoc:
  "unique_names (rs @ [r]) =
     (unique_names rs \<and> (\<forall>q \<in> set rs. toLowerCase (recipeName q) \<noteq> toLowerCase (recipeName r)))"
  by (force simp: unique_names_def image_iff)

lemma unique_names_filter: "unique_names rs \<Longrightarrow> unique_names (filter P rs)"
  by (simp add: unique_names_def distinct_map_filter)

lemma unique_names_nth:
  assumes "unique_names rs" "i < length rs" "j < length rs"
    and "toLowerCase (recipeName (rs ! i)) = toLowerCase (recipeName (rs ! j))"
  shows "i = j"
proof -
  let ?ns = "map (\<lambda>r. toLowerCase (recipeName r)) rs"
  have "distinct ?ns" using assms(1) by (simp add: unique_names_def)
  moreover have "?ns ! i = ?ns ! j" using assms(2-4) by simp
  moreover have "i < length ?ns" "j < length ?ns" using assms(2,3) by simp_all
  ultimately show ?thesis using nth_eq_iff_index_eq [of ?ns i j] by blast
qed

lemma unique_names_update:
  assumes "unique_names rs"
    and "\<forall>j < length rs. j \<noteq> i \<longrightarrow> toLowerCase (recipeName (rs ! j)) \<noteq> toLowerCase (recipeName u)"
  shows "unique_names (rs[i := u])"
proof -
  let ?f = "\<lambda>r. toLowerCase (recipeName r)"
  have d: "distinct (map ?f rs)" using assms(1) by (simp add: unique_names_def)
  have "distinct (map ?f (rs[i := u]))"
    unfolding distinct_conv_nth
  proof (intro allI impI)
    fix a b
    assume a: "a < length (map ?f (rs[i := u]))" and b: "b < length (map ?f (rs[i := u]))"
      and ab: "a \<noteq> b"
    have la: "a < length rs" and lb: "b < length rs" using a b by simp_all
    have old: "?f (rs ! a) \<noteq> ?f (rs ! b)"
      using d la lb ab by (metis assms(1) unique_names_nth)
    show "map ?f (rs[i := u]) ! a \<noteq> map ?f (rs[i := u]) ! b"
    proof (cases "a = i")
      case True
      then have "b \<noteq> i" using ab by simp
      then show ?thesis using True la lb assms(2) by (simp add: nth_list_update) metis
    next
      case False
      show ?thesis
      proof (cases "b = i")
        case True
        then show ?thesis using False la lb assms(2) by (simp add: nth_list_update)
      next
        case bi: False
        then show ?thesis using False la lb old by (simp add: nth_list_update)
      qed
    qed
  qed
  then show ?thesis by (simp add: unique_names_def)
qed

subsection \<open>The storage functions\<close>

lemma update_not_found:
  "\<not> list_ex (same_name n) (getSavedRecipes st) \<Longrightarrow>
   updateRecipeInStorage n u st = (Inl NotFound, st)"
  by (simp add: updateRecipeInStorage_def Let_def findIndex_found)

lemma update_found:
  assumes "list_ex (same_name n) (getSavedRecipes st)"
  shows "\<exists>i < length (getSavedRecipes st).
           same_name n (getSavedRecipes st ! i) \<and>
           (\<forall>j < i. \<not> same_name n (getSavedRecipes st ! j)) \<and>
           updateRecipeInStorage n u st = (Inr (), Some ((getSavedRecipes st)[i := u]))"
proof -
  from findIndex_first [OF assms] obtain i where i: "i < length (getSavedRecipes st)"
    "findIndex (same_name n) (getSavedRecipes st) = int i"
    "same_name n (getSavedRecipes st ! i)" "\<forall>j < i. \<not> same_name n (getSavedRecipes st ! j)"
    by blast
  have "updateRecipeInStorage n u st = (Inr (), Some ((getSavedRecipes st)[i := u]))"
    using i(2) by (simp add: updateRecipeInStorage_def Let_def)
  with i show ?thesis by blast
qed

lemma getSavedRecipes_Some [simp]: "getSavedRecipes (Some rs) = rs"
  by (simp add: getSavedRecipes_def)

lemma getSavedRecipes_None [simp]: "getSavedRecipes None = []"
  by (simp add: getSavedRecipes_def)

subsection \<open>Preservation of the invariant\<close>

lemma save_unique:
  "unique_names (getSavedRecipes st) \<Longrightarrow>
   unique_names (getSavedRecipes (snd (saveRecipeToStorage r st)))"
  by (simp add: saveRecipeToStorage_def Let_def unique_names_snoc list_ex_same_name)

lemma remove_unique:
  "unique_names (getSavedRecipes st) \<Longrightarrow>
   unique_names (getSavedRecipes (removeRecipeFromStorage n st))"
  by (simp add: removeRecipeFromStorage_def unique_names_filter)

lemma update_unique:
  assumes u: "unique_names (getSavedRecipes st)"
    and g: "toLowerCase (recipeName u) = toLowerCase n \<or> \<not> isRecipeSaved (recipeName u) st"
  shows "unique_names (getSavedRecipes (snd (updateRecipeInStorage n u st)))"
proof (cases "list_ex (same_name n) (getSavedRecipes st)")
  case False
  then show ?thesis using u by (simp add: update_not_found)
next
  case True
  let ?rs = "getSavedRecipes st"
  from update_found [OF True, of u] obtain i where i: "i < length ?rs" "same_name n (?rs ! i)"
    "updateRecipeInStorage n u st = (Inr (), Some (?rs[i := u]))"
    by blast
  have "\<forall>j < length ?rs. j \<noteq> i \<longrightarrow>
          toLowerCase (recipeName (?rs ! j)) \<noteq> toLowerCase (recipeName u)"
  proof (intro allI impI)
    fix j assume j: "j < length ?rs" "j \<noteq> i"
    show "toLowerCase (recipeName (?rs ! j)) \<noteq> toLowerCase (recipeName u)"
    proof
      assume eq: "toLowerCase (recipeName (?rs ! j)) = toLowerCase (recipeName u)"
      then have "isRecipeSaved (recipeName u) st"
        using j(1) unfolding isRecipeSaved_iff by (metis nth_mem)
      with g have "toLowerCase (recipeName u) = toLowerCase n" by blast
      with eq i(2) have "toLowerCase (recipeName (?rs ! j)) = toLowerCase (recipeName (?rs ! i))"
        by (simp add: same_name_def)
      from unique_names_nth [OF u j(1) i(1) this] j(2) show False by simp
    qed
  qed
  from unique_names_update [OF u this] i(3) show ?thesis by simp
qed

lemma saveEdit_unique:
  assumes "unique_names (getSavedRecipes st)"
  shows "unique_names (getSavedRecipes (snd (saveEdit original f st)))"
proof (cases "chosen_image (imageUrl original) f")
  case (Inl e)
  then show ?thesis using assms by (simp add: saveEdit_def)
next
  case (Inr img)
  let ?u = "form_recipe f img"
  show ?thesis
  proof (cases "toLowerCase (recipeName ?u) \<noteq> toLowerCase (recipeName original)
                \<and> isRecipeSaved (recipeName ?u) st")
    case True
    then show ?thesis using assms Inr by (simp add: saveEdit_def Let_def)
  next
    case False
    then have "toLowerCase (recipeName ?u) = toLowerCase (recipeName original)
               \<or> \<not> isRecipeSaved (recipeName ?u) st"
      by blast
    from update_unique [OF assms this] False Inr show ?thesis
      by (auto simp: saveEdit_def Let_def)
  qed
qed

lemma handleAddRecipe_unique:
  assumes "unique_names (getSavedRecipes st)"
  shows "unique_names (getSavedRecipes (snd (handleAddRecipe f st)))"
  using assms save_unique [OF assms]
  by (simp add: handleAddRecipe_def Let_def split: sum.splits)

lemma perform_unique:
  "unique_names (getSavedRecipes st) \<Longrightarrow> unique_names (getSavedRecipes (perform a st))"
  by (cases a) (simp_all add: save_unique handleAddRecipe_unique saveEdit_unique remove_unique)

lemma run_unique:
  "unique_names (getSavedRecipes st) \<Longrightarrow> unique_names (getSavedRecipes (run acts st))"
  unfolding run_def
  by (induction acts arbitrary: st) (simp_all add: perform_unique)

lemma update_at_unique_index:
  assumes u: "unique_names (getSavedRecipes st)"
    and i: "i < length (getSavedRecipes st)"
    and m: "toLowerCase (recipeName (getSavedRecipes st ! i)) = toLowerCase n"
  shows "updateRecipeInStorage n r st = (Inr (), Some ((getSavedRecipes st)[i := r]))"
proof -
  let ?rs = "getSavedRecipes st"
  have "list_ex (same_name n) ?rs"
    unfolding list_ex_same_name using i m by (metis nth_mem)
  from update_found [OF this, of r] obtain k where k: "k < length ?rs" "same_name n (?rs ! k)"
    "updateRecipeInStorage n r st = (Inr (), Some (?rs[k := r]))"
    by blast
  have "toLowerCase (recipeName (?rs ! k)) = toLowerCase (recipeName (?rs ! i))"
    using k(2) m by (simp add: same_name_def)
  from unique_names_nth [OF u k(1) i this] k(3) show ?thesis by simp
qed

lemma chosen_image_read:
  assumes "\<forall>x. form_image f \<noteq> Some (Inl x)"
  shows "chosen_image dflt f
           = Inr (case form_image f of None \<Rightarrow> dflt | Some (Inl x) \<Rightarrow> dflt
                  | Some (Inr url) \<Rightarrow> Some url)"
  using assms by (auto simp: chosen_image_def split: option.splits sum.splits)

section \<open>The store\<close>

text \<open>
  Claim C2. \<open>saveRecipeToStorage\<close> (the store's add): when a stored recipe has the name of
  the new recipe up to case, it reports \<open>DuplicateName\<close> and leaves the storage as it was;
  otherwise it writes the stored sequence with the new recipe appended at the end. So of
  two recipes whose names are equal up to case, the first is accepted by a store that does
  not hold the name and the second is then refused.
\<close>

theorem saveRecipeToStorage_add:
  "((\<exists>q \<in> set (getSavedRecipes st). toLowerCase (recipeName q) = toLowerCase (recipeName r))
      \<longrightarrow> saveRecipeToStorage r st = (Inl DuplicateName, st))
   \<and> ((\<forall>q \<in> set (getSavedRecipes st). toLowerCase (recipeName q) \<noteq> toLowerCase (recipeName r))
      \<longrightarrow> saveRecipeToStorage r st = (Inr (), Some (getSavedRecipes st @ [r])))
   \<and> (toLowerCase (recipeName r1) = toLowerCase (recipeName r2)
        \<and> \<not> isRecipeSaved (recipeName r1) st
      \<longrightarrow> saveRecipeToStorage r1 st = (Inr (), Some (getSavedRecipes st @ [r1]))
          \<and> saveRecipeToStorage r2 (Some (getSavedRecipes st @ [r1]))
              = (Inl DuplicateName, Some (getSavedRecipes st @ [r1])))"
  by (auto simp: saveRecipeToStorage_def Let_def list_ex_same_name isRecipeSaved_iff)

theorem saveRecipeToStorage_add_witness:
  "isRecipeSaved (recipeName soup) (Some [stew, soup])
   \<and> saveRecipeToStorage soup (Some [stew, soup]) = (Inl DuplicateName, Some [stew, soup])
   \<and> \<not> isRecipeSaved (recipeName soup) (Some [stew])
   \<and> saveRecipeToStorage soup (Some [stew]) = (Inr (), Some [stew, soup])
   \<and> toLowerCase (recipeName soup) = toLowerCase (recipeName (stew\<lparr>recipeName := ''SOUP''\<rparr>))
   \<and> saveRecipeToStorage (stew\<lparr>recipeName := ''SOUP''\<rparr>) (Some [stew, soup])
        = (Inl DuplicateName, Some [stew, soup])
   \<and> toLowerCase (recipeName Oel) = toLowerCase (recipeName oel)
   \<and> \<not> isRecipeSaved (recipeName Oel) None
   \<and> saveRecipeToStorage Oel None = (Inr (), Some [Oel])
   \<and> saveRecipeToStorage oel (Some [Oel]) = (Inl DuplicateName, Some [Oel])"
proof -
  have h1: "isRecipeSaved (recipeName soup) (Some [stew, soup])" by code_simp
  have h2: "\<not> isRecipeSaved (recipeName soup) (Some [stew])" by code_simp
  have h3: "toLowerCase (recipeName soup) = toLowerCase (recipeName (stew\<lparr>recipeName := ''SOUP''\<rparr>))"
    by code_simp
  have h4: "toLowerCase (recipeName Oel) = toLowerCase (recipeName oel)" by code_simp
  have h5: "\<not> isRecipeSaved (recipeName Oel) None" by code_simp
  have c1: "saveRecipeToStorage soup (Some [stew, soup]) = (Inl DuplicateName, Some [stew, soup])"
    using saveRecipeToStorage_add [of "Some [stew, soup]" soup] h1
    by (simp add: isRecipeSaved_iff)
  have c2: "saveRecipeToStorage soup (Some [stew]) = (Inr (), Some [stew, soup])
            \<and> saveRecipeToStorage (stew\<lparr>recipeName := ''SOUP''\<rparr>) (Some [stew, soup])
               = (Inl DuplicateName, Some [stew, soup])"
    using saveRecipeToStorage_add [of "Some [stew]" soup soup "stew\<lparr>recipeName := ''SOUP''\<rparr>"] h2 h3
    by simp
  have c3: "saveRecipeToStorage Oel None = (Inr (), Some [Oel])
            \<and> saveRecipeToStorage oel (Some [Oel]) = (Inl DuplicateName, Some [Oel])"
    using saveRecipeToStorage_add [of None Oel Oel oel] h4 h5 by simp
  show ?thesis using h1 h2 h3 h4 h5 c1 c2 c3 by blast
qed

text \<open>
  Claim C3. \<open>updateRecipeInStorage\<close> (the store's replace): when no stored name equals
  \<open>n\<close> up to case the result is \<open>NotFound\<close> and the storage is as it was; otherwise there
  is a first position \<open>i\<close> whose name equals \<open>n\<close> up to case, and the storage written is the
  old sequence with exactly position \<open>i\<close> overwritten by the updated recipe.
\<close>

theorem updateRecipeInStorage_replace:
  "((\<forall>r \<in> set (getSavedRecipes st). toLowerCase (recipeName r) \<noteq> toLowerCase n)
      \<longrightarrow> updateRecipeInStorage n u st = (Inl NotFound, st))
   \<and> ((\<exists>r \<in> set (getSavedRecipes st). toLowerCase (recipeName r) = toLowerCase n)
      \<longrightarrow> (\<exists>i < length (getSavedRecipes st).
             toLowerCase (recipeName (getSavedRecipes st ! i)) = toLowerCase n
             \<and> (\<forall>j < i. toLowerCase (recipeName (getSavedRecipes st ! j)) \<noteq> toLowerCase n)
             \<and> updateRecipeInStorage n u st = (Inr (), Some ((getSavedRecipes st)[i := u]))
             \<and> getSavedRecipes (snd (updateRecipeInStorage n u st)) ! i = u))"
proof (intro conjI impI)
  assume "\<forall>r \<in> set (getSavedRecipes st). toLowerCase (recipeName r) \<noteq> toLowerCase n"
  then have "\<not> list_ex (same_name n) (getSavedRecipes st)" by (simp add: list_ex_same_name)
  then show "updateRecipeInStorage n u st = (Inl NotFound, st)" by (rule update_not_found)
next
  assume "\<exists>r \<in> set (getSavedRecipes st). toLowerCase (recipeName r) = toLowerCase n"
  then have "list_ex (same_name n) (getSavedRecipes st)" by (simp add: list_ex_same_name)
  from update_found [OF this, of u] obtain i where i: "i < length (getSavedRecipes st)"
    "same_name n (getSavedRecipes st ! i)" "\<forall>j < i. \<not> same_name n (getSavedRecipes st ! j)"
    "updateRecipeInStorage n u st = (Inr (), Some ((getSavedRecipes st)[i := u]))"
    by blast
  show "\<exists>i < length (getSavedRecipes st).
             toLowerCase (recipeName (getSavedRecipes st ! i)) = toLowerCase n
             \<and> (\<forall>j < i. toLowerCase (recipeName (getSavedRecipes st ! j)) \<noteq> toLowerCase n)
             \<and> updateRecipeInStorage n u st = (Inr (), Some ((getSavedRecipes st)[i := u]))
             \<and> getSavedRecipes (snd (updateRecipeInStorage n u st)) ! i = u"
    using i by (intro exI [of _ i]) (simp add: same_name_def)
qed

theorem updateRecipeInStorage_replace_witness:
  "\<not> isRecipeSaved ''Soup'' (Some [stew])
   \<and> updateRecipeInStorage ''Soup'' soup (Some [stew]) = (Inl NotFound, Some [stew])
   \<and> isRecipeSaved ''SOUP'' (Some [stew, soup])
   \<and> (\<exists>i < length (getSavedRecipes (Some [stew, soup])).
         updateRecipeInStorage ''SOUP'' stew (Some [stew, soup])
           = (Inr (), Some ((getSavedRecipes (Some [stew, soup]))[i := stew])))
   \<and> isRecipeSaved (recipeName oel) (Some [Oel])
   \<and> updateRecipeInStorage (recipeName oel) broth (Some [Oel]) = (Inr (), Some [broth])"
proof -
  have h1: "\<not> isRecipeSaved ''Soup'' (Some [stew])" by code_simp
  have h2: "isRecipeSaved ''SOUP'' (Some [stew, soup])" by code_simp
  have h3: "isRecipeSaved (recipeName oel) (Some [Oel])" by code_simp
  have c1: "updateRecipeInStorage ''Soup'' soup (Some [stew]) = (Inl NotFound, Some [stew])"
    using updateRecipeInStorage_replace [of "Some [stew]" "''Soup''" soup] h1
    unfolding isRecipeSaved_iff by blast
  have c2: "\<exists>i < length (getSavedRecipes (Some [stew, soup])).
         updateRecipeInStorage ''SOUP'' stew (Some [stew, soup])
           = (Inr (), Some ((getSavedRecipes (Some [stew, soup]))[i := stew]))"
    using updateRecipeInStorage_replace [of "Some [stew, soup]" "''SOUP''" stew] h2
    unfolding isRecipeSaved_iff by blast
  from updateRecipeInStorage_replace [of "Some [Oel]" "recipeName oel" broth] h3
  obtain i where "i < length (getSavedRecipes (Some [Oel]))"
    "updateRecipeInStorage (recipeName oel) broth (Some [Oel])
       = (Inr (), Some ((getSavedRecipes (Some [Oel]))[i := broth]))"
    unfolding isRecipeSaved_iff by blast
  then have c3: "updateRecipeInStorage (recipeName oel) broth (Some [Oel])
                   = (Inr (), Some [broth])"
    by simp
  show ?thesis using h1 h2 h3 c1 c2 c3 by blast
qed

text \<open>
  Claim C10. The frame of replace: when a match is found, the sequence keeps its length,
  the matched position holds the updated recipe and every other position holds what it
  held before.
\<close>

theorem updateRecipeInStorage_frame:
  "(\<exists>r \<in> set (getSavedRecipes st). toLowerCase (recipeName r) = toLowerCase n) \<longrightarrow>
     fst (updateRecipeInStorage n u st) = Inr ()
     \<and> length (getSavedRecipes (snd (updateRecipeInStorage n u st))) = length (getSavedRecipes st)
     \<and> (\<exists>i < length (getSavedRecipes st).
          toLowerCase (recipeName (getSavedRecipes st ! i)) = toLowerCase n
          \<and> getSavedRecipes (snd (updateRecipeInStorage n u st)) ! i = u
          \<and> (\<forall>j < length (getSavedRecipes st). j \<noteq> i \<longrightarrow>
                getSavedRecipes (snd (updateRecipeInStorage n u st)) ! j = getSavedRecipes st ! j))"
proof
  assume "\<exists>r \<in> set (getSavedRecipes st). toLowerCase (recipeName r) = toLowerCase n"
  then have "list_ex (same_name n) (getSavedRecipes st)" by (simp add: list_ex_same_name)
  from update_found [OF this, of u] obtain i where i: "i < length (getSavedRecipes st)"
    "same_name n (getSavedRecipes st ! i)"
    "updateRecipeInStorage n u st = (Inr (), Some ((getSavedRecipes st)[i := u]))"
    by blast
  have "\<exists>i < length (getSavedRecipes st).
          toLowerCase (recipeName (getSavedRecipes st ! i)) = toLowerCase n
          \<and> getSavedRecipes (snd (updateRecipeInStorage n u st)) ! i = u
          \<and> (\<forall>j < length (getSavedRecipes st). j \<noteq> i \<longrightarrow>
                getSavedRecipes (snd (updateRecipeInStorage n u st)) ! j = getSavedRecipes st ! j)"
    using i by (intro exI [of _ i]) (simp add: same_name_def)
  then show "fst (updateRecipeInStorage n u st) = Inr ()
     \<and> length (getSavedRecipes (snd (updateRecipeInStorage n u st))) = length (getSavedRecipes st)
     \<and> (\<exists>i < length (getSavedRecipes st).
          toLowerCase (recipeName (getSavedRecipes st ! i)) = toLowerCase n
          \<and> getSavedRecipes (snd (updateRecipeInStorage n u st)) ! i = u
          \<and> (\<forall>j < length (getSavedRecipes st). j \<noteq> i \<longrightarrow>
                getSavedRecipes (snd (updateRecipeInStorage n u st)) ! j = getSavedRecipes st ! j))"
    using i(3) by simp
qed

theorem updateRecipeInStorage_frame_witness:
  "isRecipeSaved ''soup'' (Some [stew, soup])
   \<and> length (getSavedRecipes (snd (updateRecipeInStorage ''soup'' broth (Some [stew, soup])))) = 2
   \<and> getSavedRecipes (snd (updateRecipeInStorage ''soup'' broth (Some [stew, soup]))) ! 0 = stew
   \<and> isRecipeSaved (recipeName oel) (Some [Oel, stew])
   \<and> getSavedRecipes (snd (updateRecipeInStorage (recipeName oel) broth (Some [Oel, stew]))) ! 0
       = broth
   \<and> getSavedRecipes (snd (updateRecipeInStorage (recipeName oel) broth (Some [Oel, stew]))) ! 1
       = stew"
proof -
  have h: "isRecipeSaved ''soup'' (Some [stew, soup])" by code_simp
  have n: "toLowerCase (recipeName stew) \<noteq> toLowerCase ''soup''" by code_simp
  from updateRecipeInStorage_frame [of "Some [stew, soup]" "''soup''" broth] h
  obtain i where len: "length (getSavedRecipes (snd (updateRecipeInStorage ''soup'' broth
        (Some [stew, soup])))) = length (getSavedRecipes (Some [stew, soup]))"
    and i: "i < length (getSavedRecipes (Some [stew, soup]))"
      "toLowerCase (recipeName (getSavedRecipes (Some [stew, soup]) ! i)) = toLowerCase ''soup''"
      "\<forall>j < length (getSavedRecipes (Some [stew, soup])). j \<noteq> i \<longrightarrow>
         getSavedRecipes (snd (updateRecipeInStorage ''soup'' broth (Some [stew, soup]))) ! j
           = getSavedRecipes (Some [stew, soup]) ! j"
    unfolding isRecipeSaved_iff by blast
  have "i \<noteq> 0" using i(2) n by (cases i) auto
  then have c1: "getSavedRecipes (snd (updateRecipeInStorage ''soup'' broth (Some [stew, soup]))) ! 0
               = stew"
    using i(3) by simp
  have h': "isRecipeSaved (recipeName oel) (Some [Oel, stew])" by code_simp
  have n': "toLowerCase (recipeName stew) \<noteq> toLowerCase (recipeName oel)" by code_simp
  from updateRecipeInStorage_frame [of "Some [Oel, stew]" "recipeName oel" broth] h'
  obtain k where k: "k < length (getSavedRecipes (Some [Oel, stew]))"
      "toLowerCase (recipeName (getSavedRecipes (Some [Oel, stew]) ! k))
         = toLowerCase (recipeName oel)"
      "getSavedRecipes (snd (updateRecipeInStorage (recipeName oel) broth (Some [Oel, stew]))) ! k
         = broth"
      "\<forall>j < length (getSavedRecipes (Some [Oel, stew])). j \<noteq> k \<longrightarrow>
         getSavedRecipes (snd (updateRecipeInStorage (recipeName oel) broth (Some [Oel, stew]))) ! j
           = getSavedRecipes (Some [Oel, stew]) ! j"
    unfolding isRecipeSaved_iff by blast
  have "k \<noteq> 1" using k(2) n' by auto
  with k(1) have k0: "k = 0" by simp
  have c2: "getSavedRecipes (snd (updateRecipeInStorage (recipeName oel) broth
              (Some [Oel, stew]))) ! 0 = broth"
    using k(3) k0 by simp
  have c3: "getSavedRecipes (snd (updateRecipeInStorage (recipeName oel) broth
              (Some [Oel, stew]))) ! 1 = stew"
    using k(4) k0 by simp
  show ?thesis using h len c1 h' c2 c3 by simp
qed

text \<open>
  Claim C1, as amended. The stored names are pairwise different up to case in the empty
  collection; \<open>saveRecipeToStorage\<close> and \<open>removeRecipeFromStorage\<close> keep them so;
  \<open>updateRecipeInStorage\<close> keeps them so when the name of the updated recipe equals the
  original name up to case or is not stored yet, which is what the save-edit handler
  checks before it calls it; hence the handler keeps them so, and they are pairwise
  different after every sequence of user actions that starts from the empty collection.
\<close>

theorem store_unique_names:
  "unique_names (getSavedRecipes None)
   \<and> (unique_names (getSavedRecipes st) \<longrightarrow>
        unique_names (getSavedRecipes (snd (saveRecipeToStorage r st)))
        \<and> unique_names (getSavedRecipes (removeRecipeFromStorage n st))
        \<and> (toLowerCase (recipeName u) = toLowerCase n \<or> \<not> isRecipeSaved (recipeName u) st \<longrightarrow>
             unique_names (getSavedRecipes (snd (updateRecipeInStorage n u st))))
        \<and> unique_names (getSavedRecipes (snd (saveEdit original f st))))
   \<and> unique_names (getSavedRecipes (run acts None))"
proof -
  have e: "unique_names (getSavedRecipes None)" by (simp add: unique_names_def)
  from run_unique [OF e] e show ?thesis
    by (simp add: save_unique remove_unique update_unique saveEdit_unique)
qed

theorem store_unique_names_witness:
  "unique_names (getSavedRecipes (Some [soup, stew]))
   \<and> unique_names (getSavedRecipes (snd (saveRecipeToStorage broth (Some [soup, stew]))))
   \<and> unique_names (getSavedRecipes (removeRecipeFromStorage ''Soup'' (Some [soup, stew])))
   \<and> \<not> isRecipeSaved (recipeName broth) (Some [soup, stew])
   \<and> unique_names (getSavedRecipes (snd (updateRecipeInStorage ''Soup'' broth (Some [soup, stew]))))
   \<and> unique_names (getSavedRecipes
        (run [SaveRecipe soup, SaveEdit soup (edit_form ''Stew''), DeleteRecipe ''Stew''] None))
   \<and> unique_names (getSavedRecipes (run [SaveRecipe Oel, SaveRecipe oel] None))
   \<and> run [SaveRecipe Oel, SaveRecipe oel] None = Some [Oel]
   \<and> \<not> unique_names [Oel, oel]"
proof -
  have h1: "unique_names (getSavedRecipes (Some [soup, stew]))" by code_simp
  have h2: "\<not> isRecipeSaved (recipeName broth) (Some [soup, stew])" by code_simp
  have r: "run [SaveRecipe Oel, SaveRecipe oel] None = Some [Oel]" by code_simp
  have n: "\<not> unique_names [Oel, oel]" by code_simp
  from store_unique_names [of "Some [soup, stew]" broth "''Soup''" broth soup "edit_form ''Stew''"
      "[SaveRecipe soup, SaveEdit soup (edit_form ''Stew''), DeleteRecipe ''Stew'']"] h1 h2
  have c1: "unique_names (getSavedRecipes (snd (saveRecipeToStorage broth (Some [soup, stew]))))
   \<and> unique_names (getSavedRecipes (removeRecipeFromStorage ''Soup'' (Some [soup, stew])))
   \<and> unique_names (getSavedRecipes (snd (updateRecipeInStorage ''Soup'' broth (Some [soup, stew]))))
   \<and> unique_names (getSavedRecipes
        (run [SaveRecipe soup, SaveEdit soup (edit_form ''Stew''), DeleteRecipe ''Stew''] None))"
    by blast
  from store_unique_names [of _ _ _ _ _ _ "[SaveRecipe Oel, SaveRecipe oel]"]
  have c2: "unique_names (getSavedRecipes (run [SaveRecipe Oel, SaveRecipe oel] None))"
    by blast
  show ?thesis using h1 h2 r n c1 c2 by blast
qed

text \<open>
  \<open>updateRecipeInStorage\<close> on its own does not look at the name of the updated recipe:
  from the store holding Soup and Stew, reached by two saves from the empty collection,
  replacing Soup by a recipe named STEW leaves two entries named alike up to case.
\<close>

theorem replace_alone_breaks_unique_names:
  "run [SaveRecipe soup, SaveRecipe stew] None = Some [soup, stew]
   \<and> unique_names (getSavedRecipes (Some [soup, stew]))
   \<and> updateRecipeInStorage ''Soup'' (broth\<lparr>recipeName := ''STEW''\<rparr>) (Some [soup, stew])
       = (Inr (), Some [broth\<lparr>recipeName := ''STEW''\<rparr>, stew])
   \<and> \<not> unique_names (getSavedRecipes (snd
         (updateRecipeInStorage ''Soup'' (broth\<lparr>recipeName := ''STEW''\<rparr>) (Some [soup, stew]))))"
  by code_simp

text \<open>
  Claim C6. \<open>removeRecipeFromStorage\<close> keeps, in their order, exactly the entries whose
  name differs from \<open>n\<close> as a string, and always writes the result, also when nothing was
  removed. Removing a name no entry carries leaves the collection as it was, and removing
  twice is removing once. When the stored names are pairwise different up to case and an
  entry named exactly \<open>n\<close> was stored, \<open>isRecipeSaved n\<close> is false afterwards. An entry whose
  name equals \<open>n\<close> only up to case stays, and \<open>isRecipeSaved n\<close> stays true.
\<close>

theorem removeRecipeFromStorage_exact:
  "getSavedRecipes (removeRecipeFromStorage n st)
     = filter (\<lambda>r. recipeName r \<noteq> n) (getSavedRecipes st)
   \<and> removeRecipeFromStorage n st = Some (getSavedRecipes (removeRecipeFromStorage n st))
   \<and> (\<forall>r \<in> set (getSavedRecipes (removeRecipeFromStorage n st)). recipeName r \<noteq> n)
   \<and> (\<forall>r \<in> set (getSavedRecipes st).
         recipeName r \<noteq> n \<longrightarrow> r \<in> set (getSavedRecipes (removeRecipeFromStorage n st)))
   \<and> ((\<forall>r \<in> set (getSavedRecipes st). recipeName r \<noteq> n) \<longrightarrow>
         getSavedRecipes (removeRecipeFromStorage n st) = getSavedRecipes st)
   \<and> removeRecipeFromStorage n (removeRecipeFromStorage n st) = removeRecipeFromStorage n st
   \<and> (unique_names (getSavedRecipes st) \<and> (\<exists>r \<in> set (getSavedRecipes st). recipeName r = n)
         \<longrightarrow> \<not> isRecipeSaved n (removeRecipeFromStorage n st))
   \<and> ((\<forall>r \<in> set (getSavedRecipes st). recipeName r \<noteq> n) \<and> isRecipeSaved n st
         \<longrightarrow> isRecipeSaved n (removeRecipeFromStorage n st))"
proof -
  let ?rs = "getSavedRecipes st"
  let ?st' = "removeRecipeFromStorage n st"
  have list: "getSavedRecipes ?st' = filter (\<lambda>r. recipeName r \<noteq> n) ?rs"
    by (simp add: removeRecipeFromStorage_def)
  have written: "?st' = Some (getSavedRecipes ?st')"
    by (simp add: removeRecipeFromStorage_def)
  have absent: "(\<forall>r \<in> set ?rs. recipeName r \<noteq> n) \<longrightarrow> getSavedRecipes ?st' = ?rs"
    by (simp add: list)
  have idem: "removeRecipeFromStorage n ?st' = ?st'"
    by (simp add: removeRecipeFromStorage_def)
  have gone: "\<not> isRecipeSaved n ?st'"
    if u: "unique_names ?rs" and ex: "\<exists>r \<in> set ?rs. recipeName r = n"
  proof
    assume "isRecipeSaved n ?st'"
    then obtain q where q: "q \<in> set ?rs" "recipeName q \<noteq> n"
      "toLowerCase (recipeName q) = toLowerCase n"
      unfolding isRecipeSaved_iff list by auto
    from ex obtain r where r: "r \<in> set ?rs" "recipeName r = n" by blast
    from q(1) obtain i where i: "i < length ?rs" "?rs ! i = q" by (auto simp: in_set_conv_nth)
    from r(1) obtain j where j: "j < length ?rs" "?rs ! j = r" by (auto simp: in_set_conv_nth)
    have "toLowerCase (recipeName (?rs ! i)) = toLowerCase (recipeName (?rs ! j))"
      using i(2) j(2) q(3) r(2) by simp
    from unique_names_nth [OF u i(1) j(1) this] i(2) j(2) have "q = r" by simp
    with q(2) r(2) show False by simp
  qed
  have kept: "isRecipeSaved n ?st'"
    if "\<forall>r \<in> set ?rs. recipeName r \<noteq> n" and "isRecipeSaved n st"
    using that absent by (simp add: isRecipeSaved_def)
  show ?thesis
    using list written absent idem gone kept by (simp add: list)
qed

theorem removeRecipeFromStorage_exact_witness:
  "unique_names (getSavedRecipes (Some [soup, stew]))
   \<and> (\<exists>r \<in> set (getSavedRecipes (Some [soup, stew])). recipeName r = ''Soup'')
   \<and> \<not> isRecipeSaved ''Soup'' (removeRecipeFromStorage ''Soup'' (Some [soup, stew]))
   \<and> \<not> (\<exists>r \<in> set (getSavedRecipes (Some [soup, stew])). recipeName r = ''SOUP'')
   \<and> isRecipeSaved ''SOUP'' (Some [soup, stew])
   \<and> isRecipeSaved ''SOUP'' (removeRecipeFromStorage ''SOUP'' (Some [soup, stew]))
   \<and> getSavedRecipes (removeRecipeFromStorage ''SOUP'' (Some [soup, stew])) = [soup, stew]
   \<and> unique_names (getSavedRecipes (Some [Oel, stew]))
   \<and> \<not> isRecipeSaved (recipeName Oel) (removeRecipeFromStorage (recipeName Oel) (Some [Oel, stew]))
   \<and> isRecipeSaved (recipeName oel) (removeRecipeFromStorage (recipeName oel) (Some [Oel, stew]))
   \<and> getSavedRecipes (removeRecipeFromStorage (recipeName oel) (Some [Oel, stew])) = [Oel, stew]"
proof -
  have h1: "unique_names (getSavedRecipes (Some [soup, stew]))" by code_simp
  have h2: "\<exists>r \<in> set (getSavedRecipes (Some [soup, stew])). recipeName r = ''Soup''"
    by code_simp
  have h3: "\<not> (\<exists>r \<in> set (getSavedRecipes (Some [soup, stew])). recipeName r = ''SOUP'')"
    by code_simp
  have h4: "isRecipeSaved ''SOUP'' (Some [soup, stew])" by code_simp
  have c1: "\<not> isRecipeSaved ''Soup'' (removeRecipeFromStorage ''Soup'' (Some [soup, stew]))"
    using removeRecipeFromStorage_exact [of "''Soup''" "Some [soup, stew]"] h1 h2 by blast
  have c2: "isRecipeSaved ''SOUP'' (removeRecipeFromStorage ''SOUP'' (Some [soup, stew]))
            \<and> getSavedRecipes (removeRecipeFromStorage ''SOUP'' (Some [soup, stew]))
                = getSavedRecipes (Some [soup, stew])"
    using removeRecipeFromStorage_exact [of "''SOUP''" "Some [soup, stew]"] h3 h4 by blast
  have k1: "unique_names (getSavedRecipes (Some [Oel, stew]))" by code_simp
  have k2: "\<exists>r \<in> set (getSavedRecipes (Some [Oel, stew])). recipeName r = recipeName Oel"
    by simp
  have k3: "\<not> (\<exists>r \<in> set (getSavedRecipes (Some [Oel, stew])). recipeName r = recipeName oel)"
    by code_simp
  have k4: "isRecipeSaved (recipeName oel) (Some [Oel, stew])" by code_simp
  have c3: "\<not> isRecipeSaved (recipeName Oel)
              (removeRecipeFromStorage (recipeName Oel) (Some [Oel, stew]))"
    using removeRecipeFromStorage_exact [of "recipeName Oel" "Some [Oel, stew]"] k1 k2 by blast
  have c4: "isRecipeSaved (recipeName oel)
              (removeRecipeFromStorage (recipeName oel) (Some [Oel, stew]))
            \<and> getSavedRecipes (removeRecipeFromStorage (recipeName oel) (Some [Oel, stew]))
                = getSavedRecipes (Some [Oel, stew])"
    using removeRecipeFromStorage_exact [of "recipeName oel" "Some [Oel, stew]"] k3 k4 by blast
  show ?thesis using h1 h2 h3 h4 c1 c2 k1 c3 c4 by simp
qed

text \<open>
  Claim C7. Saving a recipe into an empty store (the key missing, or an empty array
  stored) writes the one-element array holding it; reading the storage back gives that
  array, with exactly one entry equal to the recipe, at every later read.
\<close>

theorem add_then_list_roundtrip:
  "getSavedRecipes st = [] \<longrightarrow>
     saveRecipeToStorage r st = (Inr (), Some [r])
     \<and> getSavedRecipes (snd (saveRecipeToStorage r st)) = [r]
     \<and> length (filter (\<lambda>q. q = r) (getSavedRecipes (snd (saveRecipeToStorage r st)))) = 1"
  by (simp add: saveRecipeToStorage_def Let_def)

theorem add_then_list_roundtrip_witness:
  "getSavedRecipes None = []
   \<and> saveRecipeToStorage soup None = (Inr (), Some [soup])
   \<and> getSavedRecipes (snd (saveRecipeToStorage soup None)) = [soup]"
  using add_then_list_roundtrip [of None soup] by simp

text \<open>
  Claim C8. Whenever \<open>saveRecipeToStorage\<close>, \<open>updateRecipeInStorage\<close>, the save-edit
  handler or the add handler ends in an error, the storage is the one it started with:
  the only errors of the first two are \<open>DuplicateName\<close> and \<open>NotFound\<close>, and every write
  comes after the checks.
\<close>

theorem failure_leaves_storage:
  "(fst (saveRecipeToStorage r st) = Inl e \<longrightarrow>
      e = DuplicateName \<and> snd (saveRecipeToStorage r st) = st)
   \<and> (fst (updateRecipeInStorage n u st) = Inl e \<longrightarrow>
      e = NotFound \<and> snd (updateRecipeInStorage n u st) = st)
   \<and> (fst (saveEdit original f st) = Inl e \<longrightarrow>
      (e = DuplicateName \<or> e = ImageReadFailure) \<and> snd (saveEdit original f st) = st)
   \<and> (fst (handleAddRecipe f st) = Inl e \<longrightarrow> snd (handleAddRecipe f st) = st)"
proof (intro conjI impI)
  assume "fst (saveRecipeToStorage r st) = Inl e"
  then show "e = DuplicateName" "snd (saveRecipeToStorage r st) = st"
    by (auto simp: saveRecipeToStorage_def Let_def split: if_splits)
next
  assume "fst (updateRecipeInStorage n u st) = Inl e"
  then show "e = NotFound" "snd (updateRecipeInStorage n u st) = st"
    by (auto simp: updateRecipeInStorage_def Let_def split: if_splits)
next
  assume "fst (saveEdit original f st) = Inl e"
  then show "e = DuplicateName \<or> e = ImageReadFailure" "snd (saveEdit original f st) = st"
    by (auto simp: saveEdit_def chosen_image_def Let_def
             split: if_splits sum.splits option.splits)
next
  assume "fst (handleAddRecipe f st) = Inl e"
  then show "snd (handleAddRecipe f st) = st"
    by (auto simp: handleAddRecipe_def saveRecipeToStorage_def chosen_image_def Let_def
             split: if_splits sum.splits option.splits)
qed

theorem failure_leaves_storage_witness:
  "fst (saveRecipeToStorage (broth\<lparr>recipeName := ''SOUP''\<rparr>) (Some [soup, stew])) = Inl DuplicateName
   \<and> snd (saveRecipeToStorage (broth\<lparr>recipeName := ''SOUP''\<rparr>) (Some [soup, stew]))
       = Some [soup, stew]
   \<and> fst (updateRecipeInStorage ''Broth'' broth (Some [soup, stew])) = Inl NotFound
   \<and> snd (updateRecipeInStorage ''Broth'' broth (Some [soup, stew])) = Some [soup, stew]
   \<and> fst (saveEdit soup (edit_form ''stew'') (Some [soup, stew])) = Inl DuplicateName
   \<and> snd (saveEdit soup (edit_form ''stew'') (Some [soup, stew])) = Some [soup, stew]
   \<and> fst (handleAddRecipe (edit_form ''Soup'') (Some [soup, stew])) = Inl DuplicateName
   \<and> snd (handleAddRecipe (edit_form ''Soup'') (Some [soup, stew])) = Some [soup, stew]"
proof -
  have h1: "fst (saveRecipeToStorage (broth\<lparr>recipeName := ''SOUP''\<rparr>) (Some [soup, stew]))
              = Inl DuplicateName"
    by code_simp
  have h2: "fst (updateRecipeInStorage ''Broth'' broth (Some [soup, stew])) = Inl NotFound"
    by code_simp
  have h3: "fst (saveEdit soup (edit_form ''stew'') (Some [soup, stew])) = Inl DuplicateName"
    by code_simp
  have h4: "fst (handleAddRecipe (edit_form ''Soup'') (Some [soup, stew])) = Inl DuplicateName"
    by code_simp
  from failure_leaves_storage [of "broth\<lparr>recipeName := ''SOUP''\<rparr>" "Some [soup, stew]"
      DuplicateName "''Broth''" broth soup "edit_form ''stew''"] h1 h3
  have c13: "snd (saveRecipeToStorage (broth\<lparr>recipeName := ''SOUP''\<rparr>) (Some [soup, stew]))
       = Some [soup, stew]"
    "snd (saveEdit soup (edit_form ''stew'') (Some [soup, stew])) = Some [soup, stew]"
    by blast+
  from failure_leaves_storage [of soup "Some [soup, stew]" NotFound "''Broth''" broth] h2
  have c2: "snd (updateRecipeInStorage ''Broth'' broth (Some [soup, stew])) = Some [soup, stew]"
    by blast
  from failure_leaves_storage [of soup "Some [soup, stew]" DuplicateName "''Broth''" broth soup
      "edit_form ''Soup''"] h4
  have c4: "snd (handleAddRecipe (edit_form ''Soup'') (Some [soup, stew])) = Some [soup, stew]"
    by blast
  show ?thesis using h1 h2 h3 h4 c13 c2 c4 by simp
qed

section \<open>The form handlers\<close>

text \<open>
  Claim C4, as amended. The save-edit handler in a store whose names are pairwise
  different up to case, when the image, if one was chosen, could be read. \<open>edited\<close> is the
  recipe with the edited fields: the trimmed name and description, the trimmed non-empty
  lines of the two text areas, and the chosen image or else the image of the original.

  When the original is stored, at position \<open>i\<close>: if another stored recipe has the edited
  name up to case, the handler reports \<open>DuplicateName\<close> and the storage is as it was,
  original entry included; if no other stored recipe has it, the handler returns \<open>edited\<close>
  and the storage holds \<open>edited\<close> at position \<open>i\<close>, so the edited name is stored, no entry
  carries the original name any more if the edited name differs from it, and
  \<open>isRecipeSaved\<close> of the original name is true exactly when the two names are equal up to
  case.

  When the original is not stored, the handler writes nothing: it reports \<open>DuplicateName\<close>
  if the edited name is stored and returns \<open>edited\<close> otherwise.
\<close>

theorem saveEdit_rename:
  assumes e: "edited =
        \<lparr> recipeName = trim (form_name f),
          description = trim (form_description f),
          ingredients = filter (\<lambda>l. l \<noteq> []) (map trim (split_lines (form_ingredients f))),
          instructions = filter (\<lambda>l. l \<noteq> []) (map trim (split_lines (form_instructions f))),
          imageUrl = (case form_image f of None \<Rightarrow> imageUrl original
                      | Some (Inl x) \<Rightarrow> imageUrl original
                      | Some (Inr url) \<Rightarrow> Some url) \<rparr>"
    and img: "\<forall>x. form_image f \<noteq> Some (Inl x)"
    and u: "unique_names (getSavedRecipes st)"
  shows "(i < length (getSavedRecipes st)
          \<and> toLowerCase (recipeName (getSavedRecipes st ! i)) = toLowerCase (recipeName original)
          \<longrightarrow>
            ((\<exists>j < length (getSavedRecipes st). j \<noteq> i \<and>
                 toLowerCase (recipeName (getSavedRecipes st ! j)) = toLowerCase (recipeName edited))
              \<longrightarrow> saveEdit original f st = (Inl DuplicateName, st))
          \<and> ((\<forall>j < length (getSavedRecipes st). j \<noteq> i \<longrightarrow>
                 toLowerCase (recipeName (getSavedRecipes st ! j)) \<noteq> toLowerCase (recipeName edited))
              \<longrightarrow> saveEdit original f st = (Inr edited, Some ((getSavedRecipes st)[i := edited]))
                  \<and> getSavedRecipes (snd (saveEdit original f st)) ! i = edited
                  \<and> isRecipeSaved (recipeName edited) (snd (saveEdit original f st))
                  \<and> (recipeName edited \<noteq> recipeName original \<longrightarrow>
                       (\<forall>q \<in> set (getSavedRecipes (snd (saveEdit original f st))).
                          recipeName q \<noteq> recipeName original))
                  \<and> (isRecipeSaved (recipeName original) (snd (saveEdit original f st))
                       = (toLowerCase (recipeName edited) = toLowerCase (recipeName original)))))
       \<and> (\<not> isRecipeSaved (recipeName original) st \<longrightarrow>
            saveEdit original f st
              = (if isRecipeSaved (recipeName edited) st then (Inl DuplicateName, st)
                 else (Inr edited, st)))"
proof (intro conjI impI; (elim conjE)?)
  let ?rs = "getSavedRecipes st"
  have fr: "form_recipe f (case form_image f of None \<Rightarrow> imageUrl original
              | Some (Inl x) \<Rightarrow> imageUrl original | Some (Inr url) \<Rightarrow> Some url) = edited"
    by (simp add: e form_recipe_def form_lines_def)
  note ci = chosen_image_read [OF img, of "imageUrl original"]
  have unfold: "saveEdit original f st =
      (if toLowerCase (recipeName edited) \<noteq> toLowerCase (recipeName original)
          \<and> isRecipeSaved (recipeName edited) st
       then (Inl DuplicateName, st)
       else (Inr edited, snd (updateRecipeInStorage (recipeName original) edited st)))"
    by (simp add: saveEdit_def ci fr Let_def)
  {
    assume i: "i < length ?rs"
      and m: "toLowerCase (recipeName (?rs ! i)) = toLowerCase (recipeName original)"
    have other_name: "toLowerCase (recipeName (?rs ! k)) \<noteq> toLowerCase (recipeName original)"
      if "k < length ?rs" "k \<noteq> i" for k
    proof
      assume "toLowerCase (recipeName (?rs ! k)) = toLowerCase (recipeName original)"
      with m have "toLowerCase (recipeName (?rs ! k)) = toLowerCase (recipeName (?rs ! i))"
        by simp
      from unique_names_nth [OF u that(1) i this] that(2) show False by simp
    qed
    {
      assume "\<exists>j < length ?rs. j \<noteq> i \<and>
                toLowerCase (recipeName (?rs ! j)) = toLowerCase (recipeName edited)"
      then obtain j where j: "j < length ?rs" "j \<noteq> i"
        "toLowerCase (recipeName (?rs ! j)) = toLowerCase (recipeName edited)"
        by blast
      have saved: "isRecipeSaved (recipeName edited) st"
        unfolding isRecipeSaved_iff using j(1,3) by (metis nth_mem)
      have "toLowerCase (recipeName edited) \<noteq> toLowerCase (recipeName original)"
        using other_name [OF j(1,2)] j(3) by simp
      with saved show "saveEdit original f st = (Inl DuplicateName, st)"
        by (simp add: unfold)
    }
    {
      assume others: "\<forall>j < length ?rs. j \<noteq> i \<longrightarrow>
          toLowerCase (recipeName (?rs ! j)) \<noteq> toLowerCase (recipeName edited)"
      have guard: "\<not> (toLowerCase (recipeName edited) \<noteq> toLowerCase (recipeName original)
                      \<and> isRecipeSaved (recipeName edited) st)"
      proof
        assume a: "toLowerCase (recipeName edited) \<noteq> toLowerCase (recipeName original)
                   \<and> isRecipeSaved (recipeName edited) st"
        then obtain k where k: "k < length ?rs"
          "toLowerCase (recipeName (?rs ! k)) = toLowerCase (recipeName edited)"
          unfolding isRecipeSaved_iff by (auto simp: in_set_conv_nth)
        with others have "k = i" by blast
        with k(2) m a show False by simp
      qed
      have res: "saveEdit original f st = (Inr edited, Some (?rs[i := edited]))"
        using guard update_at_unique_index [OF u i m, of edited] by (auto simp: unfold)
      then show "saveEdit original f st = (Inr edited, Some (?rs[i := edited]))" .
      show at_i: "getSavedRecipes (snd (saveEdit original f st)) ! i = edited"
        using res i by simp
      have mem: "edited \<in> set (getSavedRecipes (snd (saveEdit original f st)))"
        using res i by (simp add: set_update_memI)
      then show "isRecipeSaved (recipeName edited) (snd (saveEdit original f st))"
        unfolding isRecipeSaved_iff by blast
      have entry: "q = edited \<or> (\<exists>k < length ?rs. k \<noteq> i \<and> q = ?rs ! k)"
        if "q \<in> set (getSavedRecipes (snd (saveEdit original f st)))" for q
      proof -
        from that res obtain k where k: "k < length ?rs" "q = ?rs[i := edited] ! k"
          by (auto simp: in_set_conv_nth)
        then show ?thesis by (cases "k = i") auto
      qed
      {
        assume ne: "recipeName edited \<noteq> recipeName original"
        show "\<forall>q \<in> set (getSavedRecipes (snd (saveEdit original f st))).
                recipeName q \<noteq> recipeName original"
        proof
          fix q assume "q \<in> set (getSavedRecipes (snd (saveEdit original f st)))"
          from entry [OF this] show "recipeName q \<noteq> recipeName original"
            using ne other_name by metis
        qed
      }
      show "isRecipeSaved (recipeName original) (snd (saveEdit original f st))
              = (toLowerCase (recipeName edited) = toLowerCase (recipeName original))"
      proof
        assume "isRecipeSaved (recipeName original) (snd (saveEdit original f st))"
        then obtain q where q: "q \<in> set (getSavedRecipes (snd (saveEdit original f st)))"
          "toLowerCase (recipeName q) = toLowerCase (recipeName original)"
          unfolding isRecipeSaved_iff by blast
        from entry [OF q(1)] q(2) other_name
        show "toLowerCase (recipeName edited) = toLowerCase (recipeName original)" by auto
      next
        assume "toLowerCase (recipeName edited) = toLowerCase (recipeName original)"
        with mem show "isRecipeSaved (recipeName original) (snd (saveEdit original f st))"
          unfolding isRecipeSaved_iff by blast
      qed
    }
  }
  {
    assume ns: "\<not> isRecipeSaved (recipeName original) st"
    then have "\<not> list_ex (same_name (recipeName original)) ?rs"
      by (simp add: isRecipeSaved_def)
    from update_not_found [OF this, of edited]
    have nf: "snd (updateRecipeInStorage (recipeName original) edited st) = st" by simp
    have "isRecipeSaved (recipeName edited) st \<Longrightarrow>
            toLowerCase (recipeName edited) \<noteq> toLowerCase (recipeName original)"
      using ns unfolding isRecipeSaved_iff by auto
    then show "saveEdit original f st
              = (if isRecipeSaved (recipeName edited) st then (Inl DuplicateName, st)
                 else (Inr edited, st))"
      by (auto simp: unfold nf)
  }
qed

theorem saveEdit_rename_witness:
  "unique_names (getSavedRecipes (Some [soup, stew]))
   \<and> toLowerCase (recipeName (getSavedRecipes (Some [soup, stew]) ! 0))
       = toLowerCase (recipeName soup)
   \<and> saveEdit soup (edit_form ''stew'') (Some [soup, stew])
       = (Inl DuplicateName, Some [soup, stew])
   \<and> saveEdit soup photo_form (Some [soup, stew])
       = (Inr better_broth, Some [better_broth, stew])
   \<and> getSavedRecipes (snd (saveEdit soup photo_form (Some [soup, stew]))) ! 0 = better_broth
   \<and> isRecipeSaved ''Broth'' (snd (saveEdit soup photo_form (Some [soup, stew])))
   \<and> \<not> isRecipeSaved ''Soup'' (snd (saveEdit soup photo_form (Some [soup, stew])))
   \<and> \<not> isRecipeSaved (recipeName broth) (Some [soup, stew])
   \<and> saveEdit broth photo_form (Some [soup, stew]) = (Inr better_broth, Some [soup, stew])
   \<and> saveEdit soup (edit_form (recipeName oel)) (Some [soup, Oel])
       = (Inl DuplicateName, Some [soup, Oel])
   \<and> fst (saveEdit broth (edit_form ''Bouillon'') (Some [broth]))
       = Inr \<lparr> recipeName = ''Bouillon'', description = ''Better'',
               ingredients = [''Water'', ''Leek''], instructions = [''Boil'', ''Serve''],
               imageUrl = Some ''data:image/png;base64,AAAA'' \<rparr>"
proof -
  let ?st = "Some [soup, stew]"
  let ?dup = "\<lparr> recipeName = ''stew'', description = ''Better'',
                ingredients = [''Water'', ''Leek''], instructions = [''Boil'', ''Serve''],
                imageUrl = None \<rparr>"
  have u: "unique_names (getSavedRecipes ?st)" by code_simp
  have i: "0 < length (getSavedRecipes ?st)" by simp
  have m: "toLowerCase (recipeName (getSavedRecipes ?st ! 0)) = toLowerCase (recipeName soup)"
    by simp
  have e1: "?dup =
        \<lparr> recipeName = trim (form_name (edit_form ''stew'')),
          description = trim (form_description (edit_form ''stew'')),
          ingredients = filter (\<lambda>l. l \<noteq> [])
            (map trim (split_lines (form_ingredients (edit_form ''stew'')))),
          instructions = filter (\<lambda>l. l \<noteq> [])
            (map trim (split_lines (form_instructions (edit_form ''stew'')))),
          imageUrl = (case form_image (edit_form ''stew'') of None \<Rightarrow> imageUrl soup
                      | Some (Inl x) \<Rightarrow> imageUrl soup
                      | Some (Inr url) \<Rightarrow> Some url) \<rparr>"
    by code_simp
  have e2: "better_broth =
        \<lparr> recipeName = trim (form_name photo_form),
          description = trim (form_description photo_form),
          ingredients = filter (\<lambda>l. l \<noteq> []) (map trim (split_lines (form_ingredients photo_form))),
          instructions = filter (\<lambda>l. l \<noteq> []) (map trim (split_lines (form_instructions photo_form))),
          imageUrl = (case form_image photo_form of None \<Rightarrow> imageUrl orig
                      | Some (Inl x) \<Rightarrow> imageUrl orig
                      | Some (Inr url) \<Rightarrow> Some url) \<rparr>" for orig
    unfolding photo_form_def better_broth_def by simp code_simp
  have g1: "\<forall>x. form_image (edit_form ''stew'') \<noteq> Some (Inl x)" by (simp add: edit_form_def)
  have g2: "\<forall>x. form_image photo_form \<noteq> Some (Inl x)" by (simp add: photo_form_def)
  have n1: "toLowerCase (recipeName stew) = toLowerCase (recipeName ?dup)" by code_simp
  have n2: "toLowerCase (recipeName stew) \<noteq> toLowerCase (recipeName better_broth)" by code_simp
  have d2: "toLowerCase (recipeName better_broth) \<noteq> toLowerCase (recipeName soup)" by code_simp
  have nm: "recipeName better_broth = ''Broth''" "recipeName soup = ''Soup''"
    by (simp_all add: better_broth_def soup_def)
  have ns: "\<not> isRecipeSaved (recipeName broth) ?st" by code_simp
  have nb: "\<not> isRecipeSaved (recipeName better_broth) ?st" by code_simp
  have h1: "\<exists>j < length (getSavedRecipes ?st). j \<noteq> 0 \<and>
              toLowerCase (recipeName (getSavedRecipes ?st ! j)) = toLowerCase (recipeName ?dup)"
    using n1 by (intro exI [of _ 1]) simp
  have h2: "\<forall>j < length (getSavedRecipes ?st). j \<noteq> 0 \<longrightarrow>
              toLowerCase (recipeName (getSavedRecipes ?st ! j))
                \<noteq> toLowerCase (recipeName better_broth)"
  proof (intro allI impI)
    fix j assume "j < length (getSavedRecipes ?st)" "j \<noteq> 0"
    then have "j = 1" by simp
    then show "toLowerCase (recipeName (getSavedRecipes ?st ! j))
                 \<noteq> toLowerCase (recipeName better_broth)"
      using n2 by simp
  qed
  have c1: "saveEdit soup (edit_form ''stew'') ?st = (Inl DuplicateName, ?st)"
    using saveEdit_rename [OF e1 g1 u, of 0] i m h1 by blast
  have c2: "saveEdit soup photo_form ?st
              = (Inr better_broth, Some ((getSavedRecipes ?st)[0 := better_broth]))
            \<and> getSavedRecipes (snd (saveEdit soup photo_form ?st)) ! 0 = better_broth
            \<and> isRecipeSaved (recipeName better_broth) (snd (saveEdit soup photo_form ?st))
            \<and> \<not> isRecipeSaved (recipeName soup) (snd (saveEdit soup photo_form ?st))"
    using saveEdit_rename [OF e2 g2 u, of 0 soup] i m h2 d2 by blast
  have c3: "saveEdit broth photo_form ?st = (Inr better_broth, ?st)"
    using saveEdit_rename [OF e2 g2 u, of 0 broth] ns nb by simp
  from c2 have "saveEdit soup photo_form ?st
              = (Inr better_broth, Some ((getSavedRecipes ?st)[0 := better_broth]))"
    by blast
  then have c2a: "saveEdit soup photo_form ?st = (Inr better_broth, Some [better_broth, stew])"
    by simp
  from c2 have c2b: "getSavedRecipes (snd (saveEdit soup photo_form ?st)) ! 0 = better_broth"
    by blast
  from c2 have c2c: "isRecipeSaved ''Broth'' (snd (saveEdit soup photo_form ?st))"
    unfolding nm by blast
  from c2 have c2d: "\<not> isRecipeSaved ''Soup'' (snd (saveEdit soup photo_form ?st))"
    unfolding nm by blast
  have x1: "saveEdit soup (edit_form (recipeName oel)) (Some [soup, Oel])
              = (Inl DuplicateName, Some [soup, Oel])"
    by code_simp
  have x2: "fst (saveEdit broth (edit_form ''Bouillon'') (Some [broth]))
       = Inr \<lparr> recipeName = ''Bouillon'', description = ''Better'',
               ingredients = [''Water'', ''Leek''], instructions = [''Boil'', ''Serve''],
               imageUrl = Some ''data:image/png;base64,AAAA'' \<rparr>"
    by code_simp
  show ?thesis using u m c1 c2a c2b c2c c2d ns c3 x1 x2 by blast
qed

text \<open>
  Without the condition that the original is stored the rename contract fails: editing a
  recipe that was never saved succeeds and writes nothing, so the store does not hold the
  new name. And after a rename that changes only the case of letters, \<open>isRecipeSaved\<close> of
  the original name is still true.
\<close>

theorem saveEdit_unsaved_or_case_only:
  "\<not> isRecipeSaved ''Broth'' (Some [stew])
   \<and> saveEdit soup photo_form (Some [stew]) = (Inr better_broth, Some [stew])
   \<and> \<not> isRecipeSaved ''Broth'' (snd (saveEdit soup photo_form (Some [stew])))
   \<and> fst (saveEdit soup (edit_form ''SOUP'') (Some [soup, stew]))
       = Inr \<lparr> recipeName = ''SOUP'', description = ''Better'',
               ingredients = [''Water'', ''Leek''], instructions = [''Boil'', ''Serve''],
               imageUrl = None \<rparr>
   \<and> isRecipeSaved ''Soup'' (snd (saveEdit soup (edit_form ''SOUP'') (Some [soup, stew])))"
  by code_simp

text \<open>
  Claim C9. The add handler writes nothing and reports an error when the trimmed name is
  empty or no ingredient line or no instruction line is left after trimming. When it gets
  past its checks, what it hands to \<open>saveRecipeToStorage\<close> has a non-empty name, at least
  one ingredient and one instruction, and no empty line among them; so whenever it
  changes the storage, it appends such a recipe.
\<close>

theorem handleAddRecipe_validation:
  "((trim (form_name f) = [] \<or> form_lines (form_ingredients f) = []
       \<or> form_lines (form_instructions f) = [])
      \<longrightarrow> (fst (handleAddRecipe f st) = Inl MissingFields
             \<or> fst (handleAddRecipe f st) = Inl ImageReadFailure)
          \<and> snd (handleAddRecipe f st) = st)
   \<and> ((fst (handleAddRecipe f st) \<noteq> Inl MissingFields
        \<and> fst (handleAddRecipe f st) \<noteq> Inl ImageReadFailure)
      \<longrightarrow> (\<exists>img. chosen_image None f = Inr img
             \<and> handleAddRecipe f st = saveRecipeToStorage (form_recipe f img) st
             \<and> recipeName (form_recipe f img) \<noteq> []
             \<and> ingredients (form_recipe f img) \<noteq> []
             \<and> instructions (form_recipe f img) \<noteq> []
             \<and> (\<forall>l \<in> set (ingredients (form_recipe f img) @ instructions (form_recipe f img)).
                  l \<noteq> [])))
   \<and> (snd (handleAddRecipe f st) \<noteq> st
      \<longrightarrow> (\<exists>r. snd (handleAddRecipe f st) = Some (getSavedRecipes st @ [r])
             \<and> recipeName r \<noteq> [] \<and> ingredients r \<noteq> [] \<and> instructions r \<noteq> []))"
proof (intro conjI impI)
  assume "trim (form_name f) = [] \<or> form_lines (form_ingredients f) = []
          \<or> form_lines (form_instructions f) = []"
  then show "fst (handleAddRecipe f st) = Inl MissingFields
             \<or> fst (handleAddRecipe f st) = Inl ImageReadFailure"
    and "snd (handleAddRecipe f st) = st"
    by (auto simp: handleAddRecipe_def form_recipe_def chosen_image_def Let_def
             split: sum.splits option.splits)
next
  assume a: "fst (handleAddRecipe f st) \<noteq> Inl MissingFields
             \<and> fst (handleAddRecipe f st) \<noteq> Inl ImageReadFailure"
  then obtain img where img: "chosen_image None f = Inr img"
    by (cases "chosen_image None f")
       (auto simp: handleAddRecipe_def chosen_image_def split: option.splits sum.splits)
  have valid: "recipeName (form_recipe f img) \<noteq> [] \<and> ingredients (form_recipe f img) \<noteq> []
               \<and> instructions (form_recipe f img) \<noteq> []"
    using a img by (auto simp: handleAddRecipe_def Let_def split: if_splits)
  then have "handleAddRecipe f st = saveRecipeToStorage (form_recipe f img) st"
    using img by (simp add: handleAddRecipe_def Let_def)
  moreover have "\<forall>l \<in> set (ingredients (form_recipe f img) @ instructions (form_recipe f img)).
                   l \<noteq> []"
    by (auto simp: form_recipe_def form_lines_def)
  ultimately show "\<exists>img. chosen_image None f = Inr img
             \<and> handleAddRecipe f st = saveRecipeToStorage (form_recipe f img) st
             \<and> recipeName (form_recipe f img) \<noteq> []
             \<and> ingredients (form_recipe f img) \<noteq> []
             \<and> instructions (form_recipe f img) \<noteq> []
             \<and> (\<forall>l \<in> set (ingredients (form_recipe f img) @ instructions (form_recipe f img)).
                  l \<noteq> [])"
    using img valid by blast
next
  assume "snd (handleAddRecipe f st) \<noteq> st"
  then show "\<exists>r. snd (handleAddRecipe f st) = Some (getSavedRecipes st @ [r])
             \<and> recipeName r \<noteq> [] \<and> ingredients r \<noteq> [] \<and> instructions r \<noteq> []"
    by (auto simp: handleAddRecipe_def saveRecipeToStorage_def Let_def
             split: sum.splits if_splits)
qed

theorem handleAddRecipe_validation_witness:
  "trim (form_name blank_form) = []
   \<and> fst (handleAddRecipe blank_form (Some [soup])) = Inl MissingFields
   \<and> snd (handleAddRecipe blank_form (Some [soup])) = Some [soup]
   \<and> trim (form_name nbsp_form) = []
   \<and> handleAddRecipe nbsp_form (Some [soup]) = (Inl MissingFields, Some [soup])
   \<and> fst (handleAddRecipe (edit_form '' Stew '') (Some [soup])) = Inr ()
   \<and> snd (handleAddRecipe (edit_form '' Stew '') (Some [soup]))
       = Some [soup, \<lparr> recipeName = ''Stew'', description = ''Better'',
                       ingredients = [''Water'', ''Leek''],
                       instructions = [''Boil'', ''Serve''], imageUrl = None \<rparr>]
   \<and> handleAddRecipe photo_form None = (Inr (), Some [better_broth])"
proof -
  have h4: "handleAddRecipe photo_form None = (Inr (), Some [better_broth])" by code_simp
  have h1: "trim (form_name blank_form) = []" by code_simp
  have e1: "fst (handleAddRecipe blank_form (Some [soup])) \<noteq> Inl ImageReadFailure" by code_simp
  have k1: "trim (form_name nbsp_form) = []" by code_simp
  have k2: "fst (handleAddRecipe nbsp_form (Some [soup])) \<noteq> Inl ImageReadFailure" by code_simp
  have h2: "fst (handleAddRecipe (edit_form '' Stew '') (Some [soup])) = Inr ()" by code_simp
  have h3: "snd (handleAddRecipe (edit_form '' Stew '') (Some [soup]))
       = Some [soup, \<lparr> recipeName = ''Stew'', description = ''Better'',
                       ingredients = [''Water'', ''Leek''],
                       instructions = [''Boil'', ''Serve''], imageUrl = None \<rparr>]"
    by code_simp
  have c1: "fst (handleAddRecipe blank_form (Some [soup])) = Inl MissingFields
            \<and> snd (handleAddRecipe blank_form (Some [soup])) = Some [soup]"
    using handleAddRecipe_validation [of blank_form "Some [soup]"] h1 e1 by blast
  have "fst (handleAddRecipe nbsp_form (Some [soup])) = Inl MissingFields
            \<and> snd (handleAddRecipe nbsp_form (Some [soup])) = Some [soup]"
    using handleAddRecipe_validation [of nbsp_form "Some [soup]"] k1 k2 by blast
  then have c2: "handleAddRecipe nbsp_form (Some [soup]) = (Inl MissingFields, Some [soup])"
    by (simp add: prod_eq_iff)
  show ?thesis using h1 c1 k1 c2 h2 h3 h4 by blast
qed

section \<open>Recipe generation\<close>

text \<open>
  Claim C5, as amended. With a non-empty prompt: an answer that does not parse gives
  \<open>InvalidResponse\<close>. An answer that parses to \<open>null\<close>, \<open>0\<close>, \<open>false\<close> or the empty string
  gives neither a recipe nor an error. An answer that parses to another value that is not
  an object gives \<open>InvalidResponse\<close>, and so does an object without \<open>recipeName\<close>, without
  \<open>ingredients\<close> or without \<open>instructions\<close>, because rendering it throws. An object that
  has these three is rendered and is the result as it came, whether or not it has a
  \<open>description\<close>; its \<open>imageUrl\<close> is absent when the answer carried none.
\<close>

theorem generateRecipe_response:
  "trim prompt \<noteq> [] \<longrightarrow>
     generateRecipe prompt Malformed st = Inl InvalidResponse
     \<and> generateRecipe prompt Falsy st = Inr None
     \<and> generateRecipe prompt NonObject st = Inl InvalidResponse
     \<and> ((resp_recipeName d = None \<or> resp_ingredients d = None \<or> resp_instructions d = None)
          \<longrightarrow> generateRecipe prompt (Document d) st = Inl InvalidResponse)
     \<and> ((resp_recipeName d \<noteq> None \<and> resp_ingredients d \<noteq> None \<and> resp_instructions d \<noteq> None)
          \<longrightarrow> generateRecipe prompt (Document d) st = Inr (Some d)
              \<and> (resp_imageUrl d = None \<longrightarrow>
                   (\<exists>r. generateRecipe prompt (Document d) st = Inr (Some r)
                        \<and> resp_imageUrl r = None)))"
  by (auto simp: generateRecipe_def request_def renderRecipe_def no_fields_def)

theorem generateRecipe_response_witness:
  "trim ''Tomato Pasta'' \<noteq> []
   \<and> generateRecipe ''Tomato Pasta'' Malformed None = Inl InvalidResponse
   \<and> generateRecipe ''Tomato Pasta'' Falsy None = Inr None
   \<and> generateRecipe ''Tomato Pasta'' NonObject None = Inl InvalidResponse
   \<and> generateRecipe ''Tomato Pasta'' (Document (pasta\<lparr>resp_ingredients := None\<rparr>)) None
       = Inl InvalidResponse
   \<and> generateRecipe ''Tomato Pasta'' (Document pasta) None = Inr (Some pasta)
   \<and> resp_imageUrl pasta = None"
proof -
  have h: "trim ''Tomato Pasta'' \<noteq> []" by code_simp
  have m: "resp_ingredients (pasta\<lparr>resp_ingredients := None\<rparr>) = None" by simp
  have p: "resp_recipeName pasta \<noteq> None \<and> resp_ingredients pasta \<noteq> None
           \<and> resp_instructions pasta \<noteq> None \<and> resp_imageUrl pasta = None"
    by (simp add: pasta_def)
  have c1: "generateRecipe ''Tomato Pasta'' Malformed None = Inl InvalidResponse
     \<and> generateRecipe ''Tomato Pasta'' Falsy None = Inr None
     \<and> generateRecipe ''Tomato Pasta'' NonObject None = Inl InvalidResponse
     \<and> generateRecipe ''Tomato Pasta'' (Document (pasta\<lparr>resp_ingredients := None\<rparr>)) None
       = Inl InvalidResponse"
    using generateRecipe_response [of "''Tomato Pasta''" None "pasta\<lparr>resp_ingredients := None\<rparr>"] h m
    by blast
  have c2: "generateRecipe ''Tomato Pasta'' (Document pasta) None = Inr (Some pasta)"
    using generateRecipe_response [of "''Tomato Pasta''" None pasta] h p by blast
  show ?thesis using h c1 c2 p by simp
qed

text \<open>
  \<open>generateRecipe\<close> does not compare the parsed object with the schema. An answer without
  the required \<open>description\<close> is rendered like any other, an \<open>imageUrl\<close> in the answer is
  kept, and a falsy answer is no error.
\<close>

theorem generateRecipe_accepts_missing_description:
  "resp_description (pasta\<lparr>resp_description := None\<rparr>) = None
   \<and> generateRecipe ''Tomato Pasta'' (Document (pasta\<lparr>resp_description := None\<rparr>)) None
       = Inr (Some (pasta\<lparr>resp_description := None\<rparr>))
   \<and> generateRecipe ''Tomato Pasta'' (Document (pasta\<lparr>resp_description := None\<rparr>)) None
       \<noteq> Inl InvalidResponse
   \<and> generateRecipe ''Tomato Pasta'' (Document (pasta\<lparr>resp_imageUrl := Some ''http://x/y.png''\<rparr>)) None
       = Inr (Some (pasta\<lparr>resp_imageUrl := Some ''http://x/y.png''\<rparr>))
   \<and> generateRecipe ''Tomato Pasta'' Falsy None \<noteq> Inl InvalidResponse"
  by code_simp

end
